theory Spec2Isabelle
  imports Main "HOL-Library.Multiset"
begin

section \<open>Python strings\<close>

text \<open>
  A Python \<^verbatim>\<open>str\<close> is a sequence of Unicode code points, and \<^verbatim>\<open>len\<close>,
  \<^verbatim>\<open>strip\<close> and the \<^verbatim>\<open>re\<close> module all work on code points. A string is
  therefore a list of code points (natural numbers); \<open>py\<close> turns an ASCII literal into
  such a list.
\<close>

type_synonym pystr = "nat list"

definition py :: "string \<Rightarrow> pystr" where
  "py s = map of_char s"

text \<open>
  \<^verbatim>\<open>str.isspace\<close> on one code point. \<^verbatim>\<open>str.strip()\<close> and the regex class
  \<^verbatim>\<open>\s\<close> of a \<^verbatim>\<open>str\<close> pattern both use exactly this set: U+0009..U+000D,
  U+001C..U+0020, U+0085, U+00A0, U+1680, U+2000..U+200A, U+2028, U+2029, U+202F,
  U+205F, U+3000.
\<close>

definition isspace :: "nat \<Rightarrow> bool" where
  "isspace c =
     ((9 \<le> c \<and> c \<le> 13) \<or> (28 \<le> c \<and> c \<le> 32) \<or> c = 133 \<or> c = 160 \<or> c = 5760 \<or>
      (8192 \<le> c \<and> c \<le> 8202) \<or> c = 8232 \<or> c = 8233 \<or> c = 8239 \<or> c = 8287 \<or>
      c = 12288)"

text \<open>\<^verbatim>\<open>s.strip()\<close>: leading and trailing whitespace removed.\<close>

definition strip :: "pystr \<Rightarrow> pystr" where
  "strip s = rev (dropWhile isspace (rev (dropWhile isspace s)))"

section \<open>The URL pattern\<close>

text \<open>
  \<^verbatim>\<open>URL_REGEX = re.compile(r"https?://[^\s]+", re.IGNORECASE)\<close>

  Under \<^verbatim>\<open>re.IGNORECASE\<close> a literal letter of the pattern matches itself, its upper
  case form and, for \<^verbatim>\<open>s\<close> only among the literals of this pattern, U+017F (LATIN
  SMALL LETTER LONG S), which Python's engine treats as a case variant of \<^verbatim>\<open>s\<close>.
  The literals \<^verbatim>\<open>:\<close> and \<^verbatim>\<open>/\<close> have no case variants.
\<close>

definition literal_ignorecase :: "nat \<Rightarrow> nat \<Rightarrow> bool" where
  "literal_ignorecase p c =
     (c = p \<or> (97 \<le> p \<and> p \<le> 122 \<and> c + 32 = p) \<or> (p = 115 \<and> c = 383))"

text \<open>
  The matcher returns what is left of the subject after a match that starts at its first
  character, or \<open>None\<close> when the pattern does not match there.
  \<open>eat\<close> consumes one literal, \<open>eat_literals\<close> a run of literals.
\<close>

fun eat :: "nat \<Rightarrow> pystr \<Rightarrow> pystr option" where
  "eat p [] = None"
| "eat p (c # cs) = (if literal_ignorecase p c then Some cs else None)"

fun eat_literals :: "pystr \<Rightarrow> pystr \<Rightarrow> pystr option" where
  "eat_literals [] s = Some s"
| "eat_literals (p # ps) s = (case eat p s of None \<Rightarrow> None | Some r \<Rightarrow> eat_literals ps r)"

text \<open>
  \<^verbatim>\<open>[^\s]+\<close>: one or more characters that are not whitespace, greedy. Nothing follows
  it in the pattern, so the engine never gives a character back.
\<close>

definition eat_non_whitespace :: "pystr \<Rightarrow> pystr option" where
  "eat_non_whitespace s =
     (if takeWhile (\<lambda>c. \<not> isspace c) s = [] then None
      else Some (dropWhile (\<lambda>c. \<not> isspace c) s))"

text \<open>\<^verbatim>\<open>://[^\s]+\<close>, the part of the pattern after the optional \<^verbatim>\<open>s\<close>.\<close>

definition after_scheme :: "pystr \<Rightarrow> pystr option" where
  "after_scheme s =
     (case eat_literals (py ''://'') s of None \<Rightarrow> None | Some r \<Rightarrow> eat_non_whitespace r)"

text \<open>
  The whole pattern. \<^verbatim>\<open>s?\<close> is greedy: the engine first tries to consume an
  \<^verbatim>\<open>s\<close> and, when the rest of the pattern fails after it, backtracks and goes on
  without it.
\<close>

definition URL_REGEX_match :: "pystr \<Rightarrow> pystr option" where
  "URL_REGEX_match s =
     (case eat_literals (py ''http'') s of
        None \<Rightarrow> None
      | Some r \<Rightarrow>
          (case (case eat 115 r of None \<Rightarrow> None | Some r' \<Rightarrow> after_scheme r') of
             Some rest \<Rightarrow> Some rest
           | None \<Rightarrow> after_scheme r))"

lemma eat_literals_length:
  "eat_literals ps s = Some r \<Longrightarrow> length r + length ps = length s"
proof (induction ps arbitrary: s)
  case Nil
  then show ?case by simp
next
  case (Cons p ps)
  then show ?case by (cases s) (auto split: if_splits)
qed

lemma eat_non_whitespace_length:
  "eat_non_whitespace s = Some r \<Longrightarrow> length r < length s"
proof -
  assume a: "eat_non_whitespace s = Some r"
  have split: "length (takeWhile (\<lambda>c. \<not> isspace c) s) + length (dropWhile (\<lambda>c. \<not> isspace c) s)
      = length s"
    by (metis length_append takeWhile_dropWhile_id)
  from a have "takeWhile (\<lambda>c. \<not> isspace c) s \<noteq> []" and "r = dropWhile (\<lambda>c. \<not> isspace c) s"
    by (auto simp: eat_non_whitespace_def split: if_splits)
  with split show ?thesis by (cases "takeWhile (\<lambda>c. \<not> isspace c) s") auto
qed

lemma after_scheme_length: "after_scheme s = Some r \<Longrightarrow> length r < length s"
  by (auto simp: after_scheme_def split: option.splits
      dest!: eat_literals_length eat_non_whitespace_length)

lemma URL_REGEX_match_length: "URL_REGEX_match s = Some r \<Longrightarrow> length r < length s"
  by (cases "eat_literals (py ''http'') s")
    (auto simp: URL_REGEX_match_def split: option.splits list.splits if_splits
      dest!: eat_literals_length after_scheme_length elim!: eat.elims)

text \<open>
  \<^verbatim>\<open>URL_REGEX.sub(repl, s)\<close>: the subject is scanned from left to right; where the
  pattern matches, the replacement is emitted and the scan resumes right after the match;
  elsewhere the character is copied and the scan moves on by one. The pattern never
  matches the empty string, and the replacement used here has no backslash, so it is
  emitted as it is.
\<close>

function URL_REGEX_sub :: "pystr \<Rightarrow> pystr \<Rightarrow> pystr" where
  "URL_REGEX_sub repl s =
     (case URL_REGEX_match s of
        Some rest \<Rightarrow> repl @ URL_REGEX_sub repl rest
      | None \<Rightarrow> (case s of [] \<Rightarrow> [] | c # cs \<Rightarrow> c # URL_REGEX_sub repl cs))"
  by pat_completeness auto
termination
  by (relation "measure (\<lambda>(repl, s). length s)") (auto dest: URL_REGEX_match_length)

declare URL_REGEX_sub.simps [simp del]

definition link_removed :: pystr where
  "link_removed = py ''[link removed]''"

section \<open>Exceptions, values and documents\<close>

text \<open>
  What a call into a collaborator may raise. Every value is an instance of Python's
  \<^verbatim>\<open>Exception\<close>; \<^verbatim>\<open>ImportError\<close> is the subclass that \<^verbatim>\<open>/test\<close> tells apart.
  The argument is the text \<^verbatim>\<open>str(e)\<close> returns.
\<close>

datatype exception = ImportError pystr | Exception pystr

fun str_exception :: "exception \<Rightarrow> pystr" where
  "str_exception (ImportError m) = m"
| "str_exception (Exception m) = m"

text \<open>
  How a request can fail. A handler raises \<^verbatim>\<open>HTTPException(status_code, detail)\<close>.
  FastAPI, which runs the handlers, refuses a body that violates the declared request
  model with status 422, before the handler is called, and fails with status 500 when the
  value a handler returns does not fit the declared \<^verbatim>\<open>response_model\<close>.
\<close>

datatype failure =
  HTTPException nat pystr
| RequestValidationError
| ResponseValidationError

fun status_code :: "failure \<Rightarrow> nat" where
  "status_code (HTTPException c d) = c"
| "status_code RequestValidationError = 422"
| "status_code ResponseValidationError = 500"

text \<open>
  A naive \<^verbatim>\<open>datetime\<close> is the number of microseconds since \<^verbatim>\<open>datetime.min\<close>, the
  least value of the type.
\<close>

type_synonym datetime = nat

definition datetime_min :: datetime where
  "datetime_min = 0"

text \<open>
  An identifier is an \<^verbatim>\<open>ObjectId\<close>, given by its hexadecimal text, or already a
  \<^verbatim>\<open>str\<close>; \<open>str_ident\<close> is \<^verbatim>\<open>str(...)\<close> on it.
\<close>

datatype ident = ObjectId pystr | IdStr pystr

fun str_ident :: "ident \<Rightarrow> pystr" where
  "str_ident (ObjectId h) = h"
| "str_ident (IdStr s) = s"

text \<open>
  A guestbook document is a \<^verbatim>\<open>dict\<close>; the keys the program and its models mention are
  \<^verbatim>\<open>_id\<close>, \<^verbatim>\<open>name\<close>, \<^verbatim>\<open>message\<close> and \<^verbatim>\<open>created_at\<close>, each of which may be
  absent.
\<close>

record document =
  doc_id :: "ident option"
  doc_name :: "pystr option"
  doc_message :: "pystr option"
  doc_created_at :: "datetime option"

section \<open>The request and response models\<close>

text \<open>
  \<^verbatim>\<open>class GuestbookCreate(BaseModel)\<close>: \<^verbatim>\<open>name: str = Field(..., max_length=80)\<close>,
  \<^verbatim>\<open>message: str = Field(..., max_length=500)\<close>. The bounds count code points and are
  checked on the text as sent, before the handler runs.
\<close>

record GuestbookCreate =
  name :: pystr
  message :: pystr

definition GuestbookCreate_validate :: "GuestbookCreate \<Rightarrow> bool" where
  "GuestbookCreate_validate payload = (length (name payload) \<le> 80 \<and> length (message payload) \<le> 500)"

text \<open>
  \<^verbatim>\<open>class GuestbookEntry(BaseModel)\<close> declares \<^verbatim>\<open>_id: str\<close>, \<^verbatim>\<open>name: str\<close>,
  \<^verbatim>\<open>message: str\<close> and \<^verbatim>\<open>created_at: datetime\<close>. Pydantic treats an attribute of
  a \<^verbatim>\<open>BaseModel\<close> whose name starts with an underscore as private, not as a field, so
  the fields of the model are \<^verbatim>\<open>name\<close>, \<^verbatim>\<open>message\<close> and \<^verbatim>\<open>created_at\<close>, all
  required (none has a default). As a \<^verbatim>\<open>response_model\<close> it validates the value a
  handler returns, ignoring keys that are not fields, and the response body holds the
  fields of the model only.
\<close>

record GuestbookEntry =
  entry_name :: pystr
  entry_message :: pystr
  entry_created_at :: datetime

definition GuestbookEntry_validate :: "document \<Rightarrow> GuestbookEntry option" where
  "GuestbookEntry_validate d =
     (case doc_name d of None \<Rightarrow> None | Some n \<Rightarrow>
      (case doc_message d of None \<Rightarrow> None | Some m \<Rightarrow>
       (case doc_created_at d of None \<Rightarrow> None | Some t \<Rightarrow>
          Some \<lparr>entry_name = n, entry_message = m, entry_created_at = t\<rparr>)))"

datatype json = JString pystr | JDatetime datetime

text \<open>The JSON object sent for one entry: one member per field of the model.\<close>

definition jsonable :: "GuestbookEntry \<Rightarrow> (pystr \<times> json) list" where
  "jsonable e =
     [(py ''name'', JString (entry_name e)),
      (py ''message'', JString (entry_message e)),
      (py ''created_at'', JDatetime (entry_created_at e))]"

section \<open>The storage collaborator and the world\<close>

text \<open>
  \<^verbatim>\<open>from database import create_document, get_documents\<close>: the module is not part of
  the program, so its two functions are parameters. Each works on a store of some type
  \<open>'db\<close>, may raise, and returns the store as it leaves it.
\<close>

record 'db database_module =
  create_document :: "pystr \<Rightarrow> (pystr \<times> pystr) list \<Rightarrow> 'db \<Rightarrow> (exception + ident) \<times> 'db"
  get_documents :: "pystr \<Rightarrow> (pystr \<times> pystr) list \<Rightarrow> int \<Rightarrow> 'db \<Rightarrow> (exception + document list) \<times> 'db"

datatype call =
  Create_document pystr "(pystr \<times> pystr) list"
| Get_documents pystr "(pystr \<times> pystr) list" int

text \<open>
  The world a handler runs in: the store, the log of the calls made into the
  collaborator, and the clock. The \<open>n\<close>-th read of \<^verbatim>\<open>datetime.now()\<close> returns
  \<open>clock n\<close>.
\<close>

record 'db world =
  store :: 'db
  calls :: "call list"
  clock :: "nat \<Rightarrow> datetime"
  clock_reads :: nat

definition call_create_document ::
  "'db database_module \<Rightarrow> pystr \<Rightarrow> (pystr \<times> pystr) list \<Rightarrow> 'db world \<Rightarrow> (exception + ident) \<times> 'db world" where
  "call_create_document db collection_name data w =
     (case create_document db collection_name data (store w) of
        (r, s) \<Rightarrow> (r, w\<lparr>store := s, calls := calls w @ [Create_document collection_name data]\<rparr>))"

definition call_get_documents ::
  "'db database_module \<Rightarrow> pystr \<Rightarrow> (pystr \<times> pystr) list \<Rightarrow> int \<Rightarrow> 'db world \<Rightarrow>
     (exception + document list) \<times> 'db world" where
  "call_get_documents db collection_name filter_dict limit w =
     (case get_documents db collection_name filter_dict limit (store w) of
        (r, s) \<Rightarrow>
          (r, w\<lparr>store := s, calls := calls w @ [Get_documents collection_name filter_dict limit]\<rparr>))"

definition datetime_now :: "'db world \<Rightarrow> datetime \<times> 'db world" where
  "datetime_now w = (clock w (clock_reads w), w\<lparr>clock_reads := Suc (clock_reads w)\<rparr>)"

section \<open>The guestbook handlers\<close>

text \<open>
  \<^verbatim>\<open>docs.sort(key=lambda d: d.get("created_at", datetime.min), reverse=True)\<close>.
  Python's sort is stable, and with \<^verbatim>\<open>reverse=True\<close> it reverses the list, sorts it
  stably in ascending order and reverses the result, so that elements with equal keys
  keep their order.
\<close>

definition created_at_key :: "document \<Rightarrow> datetime" where
  "created_at_key d = (case doc_created_at d of None \<Rightarrow> datetime_min | Some t \<Rightarrow> t)"

definition sort_reverse :: "('a \<Rightarrow> datetime) \<Rightarrow> 'a list \<Rightarrow> 'a list" where
  "sort_reverse key xs = rev (sort_key key (rev xs))"

text \<open>\<^verbatim>\<open>if "_id" in d: d["_id"] = str(d["_id"])\<close>\<close>

definition id_to_str :: "document \<Rightarrow> document" where
  "id_to_str d = (case doc_id d of None \<Rightarrow> d | Some i \<Rightarrow> d\<lparr>doc_id := Some (IdStr (str_ident i))\<rparr>)"

text \<open>
  \<^verbatim>\<open>def list_guestbook(limit: int = 50)\<close>. An exception anywhere in the body becomes
  \<^verbatim>\<open>HTTPException(status_code=500, detail=str(e))\<close>; in this model only the call into
  the collaborator can raise.
\<close>

definition list_guestbook ::
  "'db database_module \<Rightarrow> int \<Rightarrow> 'db world \<Rightarrow> (failure + document list) \<times> 'db world" where
  "list_guestbook db limit w =
     (case call_get_documents db (py ''guestbook'') [] limit w of
        (Inl e, w1) \<Rightarrow> (Inl (HTTPException 500 (str_exception e)), w1)
      | (Inr docs, w1) \<Rightarrow> (Inr (map id_to_str (sort_reverse created_at_key docs)), w1))"

text \<open>
  \<^verbatim>\<open>def add_guestbook(payload: GuestbookCreate)\<close>. The clock is read twice after the
  insertion; the first reading is not used.
\<close>

definition add_guestbook ::
  "'db database_module \<Rightarrow> GuestbookCreate \<Rightarrow> 'db world \<Rightarrow> (failure + document) \<times> 'db world" where
  "add_guestbook db payload w =
     (let name' = strip (name payload);
          message' = strip (message payload)
      in if name' = [] \<or> message' = []
         then (Inl (HTTPException 400 (py ''Name and message are required'')), w)
         else
           (let message_sanitized = URL_REGEX_sub link_removed message';
                data = [(py ''name'', name'), (py ''message'', message_sanitized)]
            in case call_create_document db (py ''guestbook'') data w of
                 (Inl e, w1) \<Rightarrow> (Inl (HTTPException 500 (str_exception e)), w1)
               | (Inr inserted_id, w1) \<Rightarrow>
                   (case datetime_now w1 of (created_at, w2) \<Rightarrow>
                    (case datetime_now w2 of (now, w3) \<Rightarrow>
                      (Inr \<lparr>doc_id = Some inserted_id, doc_name = Some name',
                            doc_message = Some message_sanitized,
                            doc_created_at = Some now\<rparr>, w3)))))"

section \<open>The guestbook routes\<close>

text \<open>
  \<^verbatim>\<open>@app.get("/guestbook", response_model=List[GuestbookEntry])\<close>: the query parameter
  \<^verbatim>\<open>limit\<close> defaults to 50, and the list the handler returns is validated and
  serialised entry by entry.
\<close>

definition GET_guestbook ::
  "'db database_module \<Rightarrow> int option \<Rightarrow> 'db world \<Rightarrow>
     (failure + (pystr \<times> json) list list) \<times> 'db world" where
  "GET_guestbook db limit_param w =
     (case list_guestbook db (case limit_param of None \<Rightarrow> 50 | Some l \<Rightarrow> l) w of
        (Inl f, w1) \<Rightarrow> (Inl f, w1)
      | (Inr docs, w1) \<Rightarrow>
          (case those (map GuestbookEntry_validate docs) of
             None \<Rightarrow> (Inl ResponseValidationError, w1)
           | Some entries \<Rightarrow> (Inr (map jsonable entries), w1)))"

text \<open>
  \<^verbatim>\<open>@app.post("/guestbook", response_model=GuestbookEntry)\<close>: the body is validated
  against \<^verbatim>\<open>GuestbookCreate\<close> before the handler runs, and the handler's value is
  validated and serialised after it.
\<close>

definition POST_guestbook ::
  "'db database_module \<Rightarrow> GuestbookCreate \<Rightarrow> 'db world \<Rightarrow>
     (failure + (pystr \<times> json) list) \<times> 'db world" where
  "POST_guestbook db payload w =
     (if \<not> GuestbookCreate_validate payload then (Inl RequestValidationError, w)
      else
        (case add_guestbook db payload w of
           (Inl f, w1) \<Rightarrow> (Inl f, w1)
         | (Inr d, w1) \<Rightarrow>
             (case GuestbookEntry_validate d of
                None \<Rightarrow> (Inl ResponseValidationError, w1)
              | Some e \<Rightarrow> (Inr (jsonable e), w1))))"

section \<open>The database probe\<close>

text \<open>
  What \<^verbatim>\<open>/test\<close> reads from its surroundings: the outcome of
  \<^verbatim>\<open>from database import db\<close> (an exception, \<^verbatim>\<open>None\<close>, or a handle) and the
  environment variables. A handle answers \<^verbatim>\<open>hasattr(db, "name")\<close> and \<^verbatim>\<open>db.name\<close>
  with \<open>db_name\<close> and \<^verbatim>\<open>db.list_collection_names()\<close> with a list or an exception.
\<close>

record db_handle =
  db_name :: "pystr option"
  list_collection_names :: "exception + pystr list"

record response =
  backend :: pystr
  database :: pystr
  database_url :: "pystr option"
  database_name :: "pystr option"
  connection_status :: pystr
  collections :: "pystr list"

text \<open>U+2705, U+274C and U+26A0 U+FE0F are the marks the status texts start with.\<close>

definition check_mark :: pystr where "check_mark = [9989]"
definition cross_mark :: pystr where "cross_mark = [10060]"
definition warning_sign :: pystr where "warning_sign = [9888, 65039]"

definition initial_response :: response where
  "initial_response =
     \<lparr>backend = check_mark @ py '' Running'',
      database = cross_mark @ py '' Not Available'',
      database_url = None,
      database_name = None,
      connection_status = py ''Not Connected'',
      collections = []\<rparr>"

text \<open>The inner \<^verbatim>\<open>try\<close>: enumerating the collections.\<close>

definition probe_collections :: "db_handle \<Rightarrow> response \<Rightarrow> response" where
  "probe_collections db r =
     (case list_collection_names db of
        Inr cs \<Rightarrow> r\<lparr>collections := take 10 cs,
                     database := check_mark @ py '' Connected & Working''\<rparr>
      | Inl e \<Rightarrow> r\<lparr>database := warning_sign @ py ''  Connected but Error: '' @ take 50 (str_exception e)\<rparr>)"

text \<open>
  The body of the outer \<^verbatim>\<open>try\<close>. The import is its first statement, so an exception
  that leaves the body leaves the response as it was.
\<close>

definition probe_db :: "exception + db_handle option \<Rightarrow> response \<Rightarrow> exception + response" where
  "probe_db imported r =
     (case imported of
        Inl e \<Rightarrow> Inl e
      | Inr None \<Rightarrow> Inr (r\<lparr>database := warning_sign @ py ''  Available but not initialized''\<rparr>)
      | Inr (Some db) \<Rightarrow>
          Inr (probe_collections db
                 (r\<lparr>database := check_mark @ py '' Available'',
                    database_url := Some (check_mark @ py '' Configured''),
                    database_name :=
                      Some (case db_name db of Some n \<Rightarrow> n | None \<Rightarrow> check_mark @ py '' Connected''),
                    connection_status := py ''Connected''\<rparr>)))"

text \<open>\<^verbatim>\<open>os.getenv(k)\<close> used as a condition: true when the variable is set to a non-empty text.\<close>

definition getenv_truthy :: "(pystr \<rightharpoonup> pystr) \<Rightarrow> pystr \<Rightarrow> bool" where
  "getenv_truthy env k = (case env k of None \<Rightarrow> False | Some v \<Rightarrow> v \<noteq> [])"

definition test_database ::
  "exception + db_handle option \<Rightarrow> (pystr \<rightharpoonup> pystr) \<Rightarrow> exception + response" where
  "test_database imported env =
     (let r1 =
            (case probe_db imported initial_response of
               Inr r \<Rightarrow> r
             | Inl (ImportError m) \<Rightarrow>
                 initial_response\<lparr>database :=
                   cross_mark @ py '' Database module not found (run enable-database first)''\<rparr>
             | Inl (Exception m) \<Rightarrow>
                 initial_response\<lparr>database := cross_mark @ py '' Error: '' @ take 50 m\<rparr>);
          r2 = r1\<lparr>database_url :=
                 Some (if getenv_truthy env (py ''DATABASE_URL'')
                       then check_mark @ py '' Set'' else cross_mark @ py '' Not Set'')\<rparr>;
          r3 = r2\<lparr>database_name :=
                 Some (if getenv_truthy env (py ''DATABASE_NAME'')
                       then check_mark @ py '' Set'' else cross_mark @ py '' Not Set'')\<rparr>
      in Inr r3)"

section \<open>The pattern in the words of the specification\<close>

text \<open>
  The specification describes the pattern as ``\<^verbatim>\<open>http://\<close> or \<^verbatim>\<open>https://\<close>
  followed by one or more non-whitespace characters'', case-insensitive. \<open>is_url u\<close>
  says that the whole string \<open>u\<close> has this shape, and \<open>url_starts_at s k\<close> that some
  substring of \<open>s\<close> starting at index \<open>k\<close> has it. These definitions follow the
  specification's words; the matcher above follows the regular expression.
\<close>

definition url_with :: "pystr \<Rightarrow> pystr \<Rightarrow> bool" where
  "url_with scheme u =
     (length scheme < length u \<and>
      list_all2 literal_ignorecase scheme (take (length scheme) u) \<and>
      list_all (\<lambda>c. \<not> isspace c) (drop (length scheme) u))"

definition is_url :: "pystr \<Rightarrow> bool" where
  "is_url u = (url_with (py ''http://'') u \<or> url_with (py ''https://'') u)"

definition url_starts_at :: "pystr \<Rightarrow> nat \<Rightarrow> bool" where
  "url_starts_at s k = (\<exists>n \<in> {..length s}. is_url (take n (drop k s)))"

lemma py_simps: "py [] = []" "py (c # cs) = of_char c # py cs"
  by (simp_all add: py_def)

lemma eat_literals_append:
  "eat_literals (ps @ qs) s = (case eat_literals ps s of None \<Rightarrow> None | Some r \<Rightarrow> eat_literals qs r)"
  by (induction ps arbitrary: s) (auto split: option.splits)

lemma eat_literals_iff:
  "eat_literals ps s = Some r \<longleftrightarrow>
     (length ps \<le> length s \<and> list_all2 literal_ignorecase ps (take (length ps) s) \<and> r = drop (length ps) s)"
proof (induction ps arbitrary: s)
  case Nil
  then show ?case by auto
next
  case (Cons p ps)
  show ?case
  proof (cases s)
    case Nil
    then show ?thesis by simp
  next
    case (Cons c cs)
    then show ?thesis using Cons.IH [of cs] by (auto split: if_splits)
  qed
qed

text \<open>An auxiliary matcher for one fixed scheme, used to relate the two descriptions.\<close>

definition match_with :: "pystr \<Rightarrow> pystr \<Rightarrow> pystr option" where
  "match_with scheme s =
     (case eat_literals scheme s of None \<Rightarrow> None | Some r \<Rightarrow> eat_non_whitespace r)"

lemma URL_REGEX_match_alt:
  "URL_REGEX_match s =
     (case match_with (py ''https://'') s of Some rest \<Rightarrow> Some rest
      | None \<Rightarrow> match_with (py ''http://'') s)"
proof -
  have a: "py ''https://'' = py ''http'' @ [115] @ py ''://''"
    and b: "py ''http://'' = py ''http'' @ py ''://''"
    by (simp_all add: py_simps)
  have c: "eat_literals [115] r = eat 115 r" for r
    by (cases r) (auto split: option.splits)
  show ?thesis
    unfolding a b match_with_def eat_literals_append c URL_REGEX_match_def after_scheme_def
    by (auto split: option.splits)
qed

lemma eat_non_whitespace_iff:
  "eat_non_whitespace s = Some r \<longleftrightarrow>
     (s \<noteq> [] \<and> \<not> isspace (hd s) \<and> r = dropWhile (\<lambda>c. \<not> isspace c) s)"
  by (cases s) (auto simp: eat_non_whitespace_def)

lemma dropWhile_boundary:
  "dropWhile (\<lambda>c. \<not> isspace c) s = [] \<or> isspace (hd (dropWhile (\<lambda>c. \<not> isspace c) s))"
  using hd_dropWhile [of "\<lambda>c. \<not> isspace c" s] by auto

lemma match_with_Some_D:
  assumes "match_with scheme s = Some rest"
  shows "\<exists>u. s = u @ rest \<and> url_with scheme u \<and> (rest = [] \<or> isspace (hd rest))"
proof -
  let ?ns = "\<lambda>c. \<not> isspace c"
  from assms obtain r where r: "eat_literals scheme s = Some r" and e: "eat_non_whitespace r = Some rest"
    by (auto simp: match_with_def split: option.splits)
  from r have len: "length scheme \<le> length s"
    and all2: "list_all2 literal_ignorecase scheme (take (length scheme) s)"
    and rdef: "r = drop (length scheme) s"
    by (auto simp: eat_literals_iff)
  from e have rne: "r \<noteq> []" and hdr: "\<not> isspace (hd r)" and rest: "rest = dropWhile ?ns r"
    by (auto simp: eat_non_whitespace_iff)
  let ?u = "take (length scheme) s @ takeWhile ?ns r"
  have tw: "takeWhile ?ns r \<noteq> []" using rne hdr by (cases r) auto
  have "s = ?u @ rest" using rdef rest by (simp)
  moreover have "url_with scheme ?u"
    using len all2 tw by (auto simp: url_with_def list_all_iff dest: set_takeWhileD)
  moreover have "rest = [] \<or> isspace (hd rest)" unfolding rest by (rule dropWhile_boundary)
  ultimately show ?thesis by blast
qed

lemma match_with_prefix:
  assumes "url_with scheme u"
  shows "match_with scheme (u @ t) = Some (dropWhile (\<lambda>c. \<not> isspace c) (drop (length scheme) u @ t))"
proof -
  from assms have len: "length scheme < length u"
    and all2: "list_all2 literal_ignorecase scheme (take (length scheme) u)"
    and body: "list_all (\<lambda>c. \<not> isspace c) (drop (length scheme) u)"
    by (auto simp: url_with_def)
  have "eat_literals scheme (u @ t) = Some (drop (length scheme) u @ t)"
    using len all2 by (simp add: eat_literals_iff)
  moreover have "drop (length scheme) u \<noteq> []" using len by simp
  moreover have "\<not> isspace (hd (drop (length scheme) u))"
    using body len by (cases "drop (length scheme) u") auto
  ultimately show ?thesis
    by (simp add: match_with_def eat_non_whitespace_iff)
qed

lemma match_with_exact:
  assumes "url_with scheme u" and "t = [] \<or> isspace (hd t)"
  shows "match_with scheme (u @ t) = Some t"
proof -
  from assms have body: "list_all (\<lambda>c. \<not> isspace c) (drop (length scheme) u)"
    by (auto simp: url_with_def)
  have "dropWhile (\<lambda>c. \<not> isspace c) (drop (length scheme) u @ t) = dropWhile (\<lambda>c. \<not> isspace c) t"
    using body by (simp add: dropWhile_append list_all_iff)
  also have "\<dots> = t" using assms(2) by (cases t) auto
  finally show ?thesis using match_with_prefix [OF assms(1), of t] by simp
qed

lemma http_not_https:
  assumes "url_with (py ''http://'') u"
  shows "match_with (py ''https://'') (u @ t) = None"
proof (rule ccontr)
  assume "match_with (py ''https://'') (u @ t) \<noteq> None"
  then obtain r where "eat_literals (py ''https://'') (u @ t) = Some r"
    by (auto simp: match_with_def split: option.splits)
  then have "list_all2 literal_ignorecase (py ''https://'') (take (length (py ''https://'')) (u @ t))"
    by (simp add: eat_literals_iff)
  then have "literal_ignorecase (py ''https://'' ! 4) (take (length (py ''https://'')) (u @ t) ! 4)"
    by (rule list_all2_nthD) (simp add: py_def)
  moreover from assms have len: "length (py ''http://'') < length u"
    and all2: "list_all2 literal_ignorecase (py ''http://'') (take (length (py ''http://'')) u)"
    by (auto simp: url_with_def)
  from all2 have "literal_ignorecase (py ''http://'' ! 4) (take (length (py ''http://'')) u ! 4)"
    by (rule list_all2_nthD) (simp add: py_def)
  moreover have "4 < length u" using len by (simp add: py_def)
  ultimately show False
    by (simp add: py_def literal_ignorecase_def nth_append)
qed

lemma URL_REGEX_match_Some_D:
  "URL_REGEX_match s = Some rest \<Longrightarrow>
     \<exists>u. s = u @ rest \<and> is_url u \<and> (rest = [] \<or> isspace (hd rest))"
  unfolding URL_REGEX_match_alt is_url_def
  by (auto split: option.splits dest!: match_with_Some_D)

lemma URL_REGEX_match_exact:
  assumes "is_url u" and "t = [] \<or> isspace (hd t)"
  shows "URL_REGEX_match (u @ t) = Some t"
proof (cases "url_with (py ''https://'') u")
  case True
  then show ?thesis
    unfolding URL_REGEX_match_alt using match_with_exact [OF True assms(2)] by simp
next
  case False
  with assms(1) have h: "url_with (py ''http://'') u" by (simp add: is_url_def)
  show ?thesis
    unfolding URL_REGEX_match_alt
    using match_with_exact [OF h assms(2)] http_not_https [OF h, of t] by simp
qed

lemma URL_REGEX_match_prefix:
  assumes "is_url u"
  shows "URL_REGEX_match (u @ t) \<noteq> None"
proof (cases "url_with (py ''https://'') u")
  case True
  then show ?thesis
    unfolding URL_REGEX_match_alt using match_with_prefix [OF True, of t] by simp
next
  case False
  with assms(1) have h: "url_with (py ''http://'') u" by (simp add: is_url_def)
  show ?thesis
    unfolding URL_REGEX_match_alt
    using match_with_prefix [OF h, of t] http_not_https [OF h, of t] by simp
qed

lemma URL_REGEX_match_None_iff:
  "URL_REGEX_match s = None \<longleftrightarrow> \<not> url_starts_at s 0"
proof
  assume n: "URL_REGEX_match s = None"
  show "\<not> url_starts_at s 0"
  proof
    assume "url_starts_at s 0"
    then obtain n where "is_url (take n s)" by (auto simp: url_starts_at_def)
    then have "URL_REGEX_match (take n s @ drop n s) \<noteq> None" by (rule URL_REGEX_match_prefix)
    with n show False by simp
  qed
next
  assume a: "\<not> url_starts_at s 0"
  show "URL_REGEX_match s = None"
  proof (rule ccontr)
    assume "URL_REGEX_match s \<noteq> None"
    then obtain rest where "URL_REGEX_match s = Some rest" by auto
    then obtain u where u: "s = u @ rest" "is_url u" by (auto dest: URL_REGEX_match_Some_D)
    then have "is_url (take (length u) (drop 0 s))" by simp
    moreover have "length u \<le> length s" using u by simp
    ultimately have "url_starts_at s 0" unfolding url_starts_at_def by blast
    with a show False ..
  qed
qed

section \<open>Properties of the substitution\<close>

lemma url_starts_at_iff: "url_starts_at s k \<longleftrightarrow> (\<exists>n. is_url (take n (drop k s)))"
proof
  assume "url_starts_at s k"
  then show "\<exists>n. is_url (take n (drop k s))" by (auto simp: url_starts_at_def)
next
  assume "\<exists>n. is_url (take n (drop k s))"
  then obtain n where n: "is_url (take n (drop k s))" ..
  have "take (min n (length s)) (drop k s) = take n (drop k s)"
    by (cases "n \<le> length s") (simp_all add: min_def)
  with n have "is_url (take (min n (length s)) (drop k s))" by simp
  moreover have "min n (length s) \<in> {..length s}" by simp
  ultimately show "url_starts_at s k" unfolding url_starts_at_def by blast
qed

lemma url_starts_at_drop: "url_starts_at s k \<longleftrightarrow> url_starts_at (drop k s) 0"
  by (simp add: url_starts_at_iff)

lemma url_starts_at_Cons: "url_starts_at (c # cs) (Suc k) \<longleftrightarrow> url_starts_at cs k"
  by (simp add: url_starts_at_iff)

lemma URL_REGEX_sub_Nil: "URL_REGEX_sub repl [] = []"
  by (simp add: URL_REGEX_sub.simps URL_REGEX_match_def py_def)

lemma URL_REGEX_sub_copy:
  "URL_REGEX_match (c # cs) = None \<Longrightarrow> URL_REGEX_sub repl (c # cs) = c # URL_REGEX_sub repl cs"
  by (subst URL_REGEX_sub.simps) simp

lemma URL_REGEX_sub_replace:
  "URL_REGEX_match s = Some rest \<Longrightarrow> URL_REGEX_sub repl s = repl @ URL_REGEX_sub repl rest"
  by (subst URL_REGEX_sub.simps) simp

lemma URL_REGEX_sub_no_url:
  "(\<And>k. \<not> url_starts_at s k) \<Longrightarrow> URL_REGEX_sub repl s = s"
proof (induction s)
  case Nil
  show ?case by (rule URL_REGEX_sub_Nil)
next
  case (Cons c cs)
  have "URL_REGEX_match (c # cs) = None"
    using Cons.prems [of 0] by (simp add: URL_REGEX_match_None_iff)
  moreover have "URL_REGEX_sub repl cs = cs"
    using Cons.prems url_starts_at_Cons by (intro Cons.IH) blast
  ultimately show ?case by (simp add: URL_REGEX_sub_copy)
qed

lemma URL_REGEX_sub_leftmost:
  assumes "\<And>k. k < length pre \<Longrightarrow> \<not> url_starts_at (pre @ u @ post) k"
    and "is_url u" and "post = [] \<or> isspace (hd post)"
  shows "URL_REGEX_sub repl (pre @ u @ post) = pre @ repl @ URL_REGEX_sub repl post"
  using assms(1)
proof (induction pre)
  case Nil
  have "URL_REGEX_match (u @ post) = Some post"
    using assms(2,3) by (rule URL_REGEX_match_exact)
  then show ?case by (simp add: URL_REGEX_sub_replace)
next
  case (Cons c pre)
  have "\<not> url_starts_at ((c # pre) @ u @ post) 0" by (rule Cons.prems) simp
  then have n: "URL_REGEX_match (c # pre @ u @ post) = None"
    by (simp add: URL_REGEX_match_None_iff)
  have "URL_REGEX_sub repl (pre @ u @ post) = pre @ repl @ URL_REGEX_sub repl post"
  proof (rule Cons.IH)
    fix k assume "k < length pre"
    then have "\<not> url_starts_at ((c # pre) @ u @ post) (Suc k)" by (intro Cons.prems) simp
    then show "\<not> url_starts_at (pre @ u @ post) k" by (simp add: url_starts_at_Cons)
  qed
  with n show ?case by (simp add: URL_REGEX_sub_copy)
qed

lemma match_with_not_None_iff:
  "match_with scheme t \<noteq> None \<longleftrightarrow>
     (\<exists>r. eat_literals scheme t = Some r \<and> r \<noteq> [] \<and> \<not> isspace (hd r))"
  by (auto simp: match_with_def eat_non_whitespace_iff split: option.splits)

lemma URL_REGEX_match_not_None_iff:
  "URL_REGEX_match t \<noteq> None \<longleftrightarrow>
     (match_with (py ''https://'') t \<noteq> None \<or> match_with (py ''http://'') t \<noteq> None)"
  unfolding URL_REGEX_match_alt by (auto split: option.splits)

lemma URL_REGEX_match_head:
  assumes "URL_REGEX_match (c # cs) \<noteq> None"
  shows "literal_ignorecase 104 c"
  using assms unfolding URL_REGEX_match_def
  by (auto simp: py_def split: option.splits if_splits)

lemma URL_REGEX_match_Nil: "URL_REGEX_match [] = None"
  by (simp add: URL_REGEX_match_def py_def)

lemma sub_prefix_agree:
  assumes "URL_REGEX_sub repl s = w @ x # t" and "repl \<noteq> []" and "hd repl \<notin> set w"
  shows "\<exists>s'. s = w @ s' \<and> URL_REGEX_sub repl s' = x # t"
  using assms(1,3)
proof (induction w arbitrary: s)
  case Nil
  then show ?case by simp
next
  case (Cons a w)
  have no: "URL_REGEX_match s = None"
  proof (rule ccontr)
    assume "URL_REGEX_match s \<noteq> None"
    then obtain rest where "URL_REGEX_match s = Some rest" by auto
    then have "URL_REGEX_sub repl s = repl @ URL_REGEX_sub repl rest"
      by (rule URL_REGEX_sub_replace)
    with Cons.prems(1) assms(2) have "hd repl = a" by (cases repl) auto
    with Cons.prems(2) show False by simp
  qed
  from Cons.prems(1) have "s \<noteq> []" by (auto simp: URL_REGEX_sub_Nil)
  then obtain c cs where s: "s = c # cs" by (cases s) auto
  with no Cons.prems(1) have ac: "a = c" and cs: "URL_REGEX_sub repl cs = w @ x # t"
    by (simp_all add: URL_REGEX_sub_copy)
  from Cons.prems(2) have "hd repl \<notin> set w" by simp
  from Cons.IH [OF cs this] obtain s' where "cs = w @ s'" "URL_REGEX_sub repl s' = x # t" by blast
  with s ac show ?case by auto
qed

lemma sub_head_nonspace:
  assumes "URL_REGEX_sub repl s = x # t" and "\<not> isspace x"
  shows "s \<noteq> [] \<and> \<not> isspace (hd s)"
proof (cases "URL_REGEX_match s")
  case None
  from assms(1) have "s \<noteq> []" by (auto simp: URL_REGEX_sub_Nil)
  then obtain c cs where s: "s = c # cs" by (cases s) auto
  with None assms show ?thesis by (simp add: URL_REGEX_sub_copy)
next
  case (Some rest)
  then have ne: "s \<noteq> []" by (auto simp: URL_REGEX_match_Nil)
  then obtain c cs where s: "s = c # cs" by (cases s) auto
  with Some have "literal_ignorecase 104 c" by (intro URL_REGEX_match_head [of c cs]) simp
  then have "\<not> isspace c" by (auto simp: literal_ignorecase_def isspace_def)
  with s show ?thesis by simp
qed

lemma list_all2_set_right:
  "list_all2 P ps w \<Longrightarrow> x \<in> set w \<Longrightarrow> \<exists>p \<in> set ps. P p x"
  by (induction rule: list_all2_induct) auto

lemma scheme_no_bracket:
  assumes "scheme = py ''http://'' \<or> scheme = py ''https://''"
    and "list_all2 literal_ignorecase scheme w"
  shows "91 \<notin> set w"
proof
  assume "91 \<in> set w"
  with assms(2) obtain p where "p \<in> set scheme" "literal_ignorecase p 91"
    by (blast dest: list_all2_set_right)
  with assms(1) show False by (auto simp: py_def literal_ignorecase_def)
qed

lemma link_removed_chars: "c \<in> set link_removed \<Longrightarrow> \<not> literal_ignorecase 104 c"
  by (auto simp: link_removed_def py_def literal_ignorecase_def)

lemma link_removed_hd: "link_removed \<noteq> []" "hd link_removed = 91"
  by (simp_all add: link_removed_def py_def)

lemma eat_literals_exact:
  "list_all2 literal_ignorecase ps w \<Longrightarrow> eat_literals ps (w @ t) = Some t"
  by (induction rule: list_all2_induct) auto

lemma match_copy_preserved:
  assumes none: "URL_REGEX_match (c # cs) = None"
  shows "URL_REGEX_match (c # URL_REGEX_sub link_removed cs) = None"
proof (rule ccontr)
  assume "URL_REGEX_match (c # URL_REGEX_sub link_removed cs) \<noteq> None"
  then have "match_with (py ''https://'') (c # URL_REGEX_sub link_removed cs) \<noteq> None \<or>
      match_with (py ''http://'') (c # URL_REGEX_sub link_removed cs) \<noteq> None"
    by (simp only: URL_REGEX_match_not_None_iff)
  then obtain scheme where sch: "scheme = py ''http://'' \<or> scheme = py ''https://''"
    and m: "match_with scheme (c # URL_REGEX_sub link_removed cs) \<noteq> None"
    by blast
  from m [unfolded match_with_not_None_iff]
  obtain r where r: "eat_literals scheme (c # URL_REGEX_sub link_removed cs) = Some r"
    and rne: "r \<noteq> []" and rhd: "\<not> isspace (hd r)"
    by blast
  let ?n = "length scheme"
  from sch have npos: "0 < ?n" by (auto simp: py_def)
  from r have len: "?n \<le> length (c # URL_REGEX_sub link_removed cs)"
    and all2: "list_all2 literal_ignorecase scheme (take ?n (c # URL_REGEX_sub link_removed cs))"
    and rdef: "r = drop ?n (c # URL_REGEX_sub link_removed cs)"
    by (auto simp: eat_literals_iff)
  obtain m where n: "?n = Suc m" using npos by (cases ?n) auto
  let ?w = "take m (URL_REGEX_sub link_removed cs)"
  from all2 n have all2': "list_all2 literal_ignorecase scheme (c # ?w)" by simp
  from rdef n have rdef': "r = drop m (URL_REGEX_sub link_removed cs)" by simp
  obtain x t where xt: "r = x # t" using rne by (cases r) auto
  have split: "URL_REGEX_sub link_removed cs = ?w @ x # t"
    using rdef' xt by (metis append_take_drop_id)
  have "91 \<notin> set (c # ?w)" using sch all2' by (rule scheme_no_bracket)
  then have "hd link_removed \<notin> set ?w" by (simp add: link_removed_hd)
  from sub_prefix_agree [OF split link_removed_hd(1) this]
  obtain s' where s': "cs = ?w @ s'" and sub': "URL_REGEX_sub link_removed s' = x # t" by blast
  from rhd xt have "\<not> isspace x" by simp
  from sub_head_nonspace [OF sub' this] have s'ne: "s' \<noteq> []" and s'hd: "\<not> isspace (hd s')" by auto
  have "eat_literals scheme ((c # ?w) @ s') = Some s'"
    using all2' by (rule eat_literals_exact)
  then have "match_with scheme (c # cs) \<noteq> None"
    using s' s'ne s'hd by (subst match_with_not_None_iff) auto
  with sch have "URL_REGEX_match (c # cs) \<noteq> None"
    by (subst URL_REGEX_match_not_None_iff) blast
  with none show False by simp
qed

lemma URL_REGEX_sub_clean:
  "URL_REGEX_match (drop k (URL_REGEX_sub link_removed s)) = None"
proof (induction "length s" arbitrary: s k rule: less_induct)
  case less
  show ?case
  proof (cases "URL_REGEX_match s")
    case (Some rest)
    then have eq: "URL_REGEX_sub link_removed s = link_removed @ URL_REGEX_sub link_removed rest"
      by (rule URL_REGEX_sub_replace)
    from Some have shorter: "length rest < length s" by (rule URL_REGEX_match_length)
    show ?thesis
    proof (cases "k < length link_removed")
      case True
      then obtain c cs where d: "drop k link_removed = c # cs" by (cases "drop k link_removed") auto
      then have "c \<in> set link_removed" by (metis in_set_dropD list.set_intros(1))
      then have "\<not> literal_ignorecase 104 c" by (rule link_removed_chars)
      then have "URL_REGEX_match (c # cs @ URL_REGEX_sub link_removed rest) = None"
        using URL_REGEX_match_head by blast
      with True d show ?thesis by (simp add: eq)
    next
      case False
      then show ?thesis using less [OF shorter] by (simp add: eq)
    qed
  next
    case None
    show ?thesis
    proof (cases s)
      case Nil
      then show ?thesis by (simp add: URL_REGEX_sub_Nil URL_REGEX_match_Nil)
    next
      case (Cons c cs)
      with None have eq: "URL_REGEX_sub link_removed s = c # URL_REGEX_sub link_removed cs"
        by (simp add: URL_REGEX_sub_copy)
      show ?thesis
      proof (cases k)
        case 0
        with eq None Cons show ?thesis by (simp add: match_copy_preserved)
      next
        case (Suc k')
        with eq Cons show ?thesis using less [of cs k'] by simp
      qed
    qed
  qed
qed

lemma URL_REGEX_sub_url_free: "\<not> url_starts_at (URL_REGEX_sub link_removed s) k"
  using URL_REGEX_sub_clean [of k s]
  by (subst url_starts_at_drop) (simp add: URL_REGEX_match_None_iff)

lemma url_starts_at_match:
  "url_starts_at s k \<longleftrightarrow> URL_REGEX_match (drop k s) \<noteq> None"
  using URL_REGEX_match_None_iff [of "drop k s"] url_starts_at_drop [of s k] by simp

lemma url_free_Nil: "\<not> url_starts_at [] k"
  by (simp add: url_starts_at_match URL_REGEX_match_Nil)

lemma url_free_Cons:
  "(\<forall>k. \<not> url_starts_at (c # cs) k) \<longleftrightarrow>
     (URL_REGEX_match (c # cs) = None \<and> (\<forall>k. \<not> url_starts_at cs k))"
proof -
  have "(\<forall>k. \<not> url_starts_at (c # cs) k) \<longleftrightarrow>
      (\<not> url_starts_at (c # cs) 0 \<and> (\<forall>k. \<not> url_starts_at (c # cs) (Suc k)))"
    by (metis not0_implies_Suc)
  then show ?thesis by (simp add: url_starts_at_Cons url_starts_at_match)
qed

lemmas url_eval = URL_REGEX_match_def after_scheme_def eat_non_whitespace_def py_simps
  literal_ignorecase_def isspace_def

section \<open>Concrete collaborators and inputs\<close>

text \<open>
  Collaborators, worlds and requests on which the theorems below are evaluated: a store
  that accepts every insertion and holds two dated documents, a store that is down, and a
  store one of whose documents has no \<^verbatim>\<open>created_at\<close>.
\<close>

definition world0 :: "unit world" where
  "world0 = \<lparr>store = (), calls = [], clock = (\<lambda>n. 1000 + n), clock_reads = 0\<rparr>"

definition stored_docs :: "document list" where
  "stored_docs =
     [\<lparr>doc_id = Some (ObjectId (py ''65a1'')), doc_name = Some (py ''Ann''),
       doc_message = Some (py ''first''), doc_created_at = Some 5\<rparr>,
      \<lparr>doc_id = Some (ObjectId (py ''65a2'')), doc_name = Some (py ''Bob''),
       doc_message = Some (py ''second''), doc_created_at = Some 9\<rparr>]"

definition db_ok :: "unit database_module" where
  "db_ok =
     \<lparr>create_document = (\<lambda>collection_name data s. (Inr (IdStr (py ''65a3'')), s)),
      get_documents = (\<lambda>collection_name filter_dict limit s. (Inr stored_docs, s))\<rparr>"

definition db_down :: "unit database_module" where
  "db_down =
     \<lparr>create_document = (\<lambda>collection_name data s. (Inl (Exception (py ''connection refused'')), s)),
      get_documents = (\<lambda>collection_name filter_dict limit s. (Inl (Exception (py ''connection refused'')), s))\<rparr>"

definition mixed_docs :: "document list" where
  "mixed_docs =
     [\<lparr>doc_id = Some (ObjectId (py ''65b1'')), doc_name = Some (py ''Ann''),
       doc_message = Some (py ''first''), doc_created_at = Some 5\<rparr>,
      \<lparr>doc_id = None, doc_name = Some (py ''Old''),
       doc_message = Some (py ''undated''), doc_created_at = None\<rparr>,
      \<lparr>doc_id = Some (ObjectId (py ''65b2'')), doc_name = Some (py ''Bob''),
       doc_message = Some (py ''second''), doc_created_at = Some 9\<rparr>]"

definition db_mixed :: "unit database_module" where
  "db_mixed =
     \<lparr>create_document = (\<lambda>collection_name data s. (Inr (IdStr (py ''65b3'')), s)),
      get_documents = (\<lambda>collection_name filter_dict limit s. (Inr mixed_docs, s))\<rparr>"

definition payload0 :: GuestbookCreate where
  "payload0 = \<lparr>name = py ''  Ann '', message = py '' see http://x.io now ''\<rparr>"

definition env_empty_url :: "pystr \<rightharpoonup> pystr" where
  "env_empty_url = [py ''DATABASE_URL'' \<mapsto> [], py ''DATABASE_NAME'' \<mapsto> py ''guestbook'']"

definition env_set_url :: "pystr \<rightharpoonup> pystr" where
  "env_set_url = [py ''DATABASE_URL'' \<mapsto> py ''mongodb://h'', py ''DATABASE_NAME'' \<mapsto> py ''guestbook'']"

definition db_handle0 :: db_handle where
  "db_handle0 = \<lparr>db_name = Some (py ''guestbook''), list_collection_names = Inr [py ''guestbook'']\<rparr>"

definition many_collections :: db_handle where
  "many_collections =
     \<lparr>db_name = None,
      list_collection_names = Inr (map (\<lambda>n. py ''c'' @ [48 + n]) [0..<12])\<rparr>"

section \<open>Properties of the handlers\<close>

lemma strip_empty_iff: "strip s = [] \<longleftrightarrow> list_all isspace s"
proof -
  have "strip s = [] \<longleftrightarrow> (\<forall>x \<in> set (dropWhile isspace s). isspace x)"
    by (simp add: strip_def dropWhile_eq_Nil_conv)
  also have "\<dots> \<longleftrightarrow> dropWhile isspace s = []"
    using hd_dropWhile [of isspace s] by (cases "dropWhile isspace s") (auto dest: set_dropWhileD)
  also have "\<dots> \<longleftrightarrow> list_all isspace s"
    by (simp add: dropWhile_eq_Nil_conv list_all_iff)
  finally show ?thesis .
qed

lemma strip_payload0:
  "strip (name payload0) = py ''Ann''" "strip (message payload0) = py ''see http://x.io now''"
  by (simp_all add: payload0_def strip_def py_def isspace_def)

lemma sanitize_payload0:
  "URL_REGEX_sub link_removed (py ''see http://x.io now'') = py ''see [link removed] now''"
  by (simp add: URL_REGEX_sub.simps url_eval link_removed_def)

lemma add_guestbook_payload0:
  "add_guestbook db_ok payload0 world0 =
     (Inr \<lparr>doc_id = Some (IdStr (py ''65a3'')), doc_name = Some (py ''Ann''),
           doc_message = Some (py ''see [link removed] now''), doc_created_at = Some 1001\<rparr>,
      world0\<lparr>calls :=
          [Create_document (py ''guestbook'')
             [(py ''name'', py ''Ann''), (py ''message'', py ''see [link removed] now'')]],
        clock_reads := 2\<rparr>)"
proof -
  have ne: "py ''Ann'' \<noteq> []" "py ''see http://x.io now'' \<noteq> []" by (simp_all add: py_def)
  show ?thesis
    by (simp add: add_guestbook_def Let_def strip_payload0 sanitize_payload0 ne
        call_create_document_def db_ok_def datetime_now_def world0_def)
qed

lemma add_guestbook_Inr_D:
  assumes "add_guestbook db payload w = (Inr d, w')"
  shows "doc_name d = Some (strip (name payload))"
    and "doc_message d = Some (URL_REGEX_sub link_removed (strip (message payload)))"
    and "calls w' = calls w @
           [Create_document (py ''guestbook'')
              [(py ''name'', strip (name payload)),
               (py ''message'', URL_REGEX_sub link_removed (strip (message payload)))]]"
proof -
  let ?data = "[(py ''name'', strip (name payload)),
                (py ''message'', URL_REGEX_sub link_removed (strip (message payload)))]"
  obtain x s where cd: "create_document db (py ''guestbook'') ?data (store w) = (x, s)"
    by (cases "create_document db (py ''guestbook'') ?data (store w)")
  from assms cd
  show "doc_name d = Some (strip (name payload))"
    and "doc_message d = Some (URL_REGEX_sub link_removed (strip (message payload)))"
    and "calls w' = calls w @ [Create_document (py ''guestbook'') ?data]"
    by (auto simp: add_guestbook_def Let_def call_create_document_def datetime_now_def
        split: if_splits sum.splits)
qed

lemma POST_guestbook_success:
  assumes "GuestbookCreate_validate payload"
    and "strip (name payload) \<noteq> []" and "strip (message payload) \<noteq> []"
    and "create_document db (py ''guestbook'')
           [(py ''name'', strip (name payload)),
            (py ''message'', URL_REGEX_sub link_removed (strip (message payload)))] (store w)
         = (Inr i, s)"
  shows "POST_guestbook db payload w =
           (Inr [(py ''name'', JString (strip (name payload))),
                 (py ''message'', JString (URL_REGEX_sub link_removed (strip (message payload)))),
                 (py ''created_at'', JDatetime (clock w (Suc (clock_reads w))))],
            w\<lparr>store := s,
              calls := calls w @
                [Create_document (py ''guestbook'')
                   [(py ''name'', strip (name payload)),
                    (py ''message'', URL_REGEX_sub link_removed (strip (message payload)))]],
              clock_reads := Suc (Suc (clock_reads w))\<rparr>)"
  using assms
  by (simp add: POST_guestbook_def add_guestbook_def Let_def call_create_document_def
      datetime_now_def GuestbookEntry_validate_def jsonable_def)

lemma id_is_no_field:
  "map_of [(py ''name'', a), (py ''message'', b), (py ''created_at'', c)] (py ''_id'') = None"
  by (simp add: py_def)

lemma sort_reverse_sorted: "sorted_wrt (\<ge>) (map key (sort_reverse key xs))"
proof -
  have "sorted (map key (sort_key key (rev xs)))" by (rule sorted_sort_key)
  then have "sorted_wrt (\<ge>) (rev (map key (sort_key key (rev xs))))"
    by (simp add: sorted_wrt_rev)
  then show ?thesis by (simp add: sort_reverse_def rev_map)
qed

lemma sort_reverse_mset: "mset (sort_reverse key xs) = mset xs"
  by (simp add: sort_reverse_def)

lemma set_sort_reverse: "set (sort_reverse key xs) = set xs"
  by (simp add: sort_reverse_def)

lemma created_at_key_id_to_str: "created_at_key (id_to_str d) = created_at_key d"
  by (simp add: created_at_key_def id_to_str_def split: option.splits)

lemma GuestbookEntry_validate_id_to_str:
  "GuestbookEntry_validate (id_to_str d) = GuestbookEntry_validate d"
  by (simp add: GuestbookEntry_validate_def id_to_str_def split: option.splits)

lemma GuestbookEntry_validate_None:
  "doc_created_at d = None \<Longrightarrow> GuestbookEntry_validate d = None"
  by (simp add: GuestbookEntry_validate_def split: option.splits)

lemma those_map_Some:
  "those (map f xs) = Some ys \<Longrightarrow> list_all2 (\<lambda>x y. f x = Some y) xs ys"
  by (induction xs arbitrary: ys) (auto split: option.splits)

lemma those_map_None_iff:
  "those (map f xs) = None \<longleftrightarrow> (\<exists>x \<in> set xs. f x = None)"
  by (induction xs) (auto split: option.splits)

lemma GuestbookEntry_validate_created_at:
  "GuestbookEntry_validate d = Some e \<Longrightarrow> entry_created_at e = created_at_key d"
  by (auto simp: GuestbookEntry_validate_def created_at_key_def split: option.splits)

lemma validated_created_at:
  assumes "those (map GuestbookEntry_validate ds) = Some es"
  shows "map entry_created_at es = map created_at_key ds"
proof -
  from assms have "list_all2 (\<lambda>d e. GuestbookEntry_validate d = Some e) ds es"
    by (rule those_map_Some)
  then show ?thesis
    by (induction rule: list_all2_induct) (simp_all add: GuestbookEntry_validate_created_at)
qed

lemma doc_id_id_to_str:
  "doc_id (id_to_str d) = map_option (\<lambda>i. IdStr (str_ident i)) (doc_id d)"
  by (simp add: id_to_str_def split: option.splits)

lemma list_guestbook_result:
  assumes "get_documents db (py ''guestbook'') [] limit (store w) = (Inr docs, s)"
  shows "fst (list_guestbook db limit w) = Inr (map id_to_str (sort_reverse created_at_key docs))"
  using assms by (simp add: list_guestbook_def call_get_documents_def)

lemma GET_guestbook_result:
  assumes "get_documents db (py ''guestbook'') [] limit (store w) = (Inr docs, s)"
  shows "fst (GET_guestbook db (Some limit) w) =
           (case those (map GuestbookEntry_validate
                   (map id_to_str (sort_reverse created_at_key docs))) of
              None \<Rightarrow> Inl ResponseValidationError
            | Some entries \<Rightarrow> Inr (map jsonable entries))"
  using assms
  by (simp add: GET_guestbook_def list_guestbook_def call_get_documents_def split: option.splits)

lemma Not_Connected_neq: "py ''Not Connected'' \<noteq> py ''Connected''"
  by (simp add: py_def)

text \<open>
  The list handler, for every list the collaborator returns: the same documents, newest
  first, and after an undated document only documents with the least key.
\<close>

lemma list_guestbook_sorted:
  assumes "get_documents db (py ''guestbook'') [] limit (store w) = (Inr docs, s)"
  shows "\<exists>r. fst (list_guestbook db limit w) = Inr r \<and>
           mset r = mset (map id_to_str docs) \<and>
           sorted_wrt (\<ge>) (map created_at_key r) \<and>
           (\<forall>i j. i < j \<and> j < length r \<and> doc_created_at (r ! i) = None
              \<longrightarrow> created_at_key (r ! j) = datetime_min)"
proof -
  let ?r = "map id_to_str (sort_reverse created_at_key docs)"
  have res: "fst (list_guestbook db limit w) = Inr ?r"
    using assms by (rule list_guestbook_result)
  have keys: "map created_at_key ?r = map created_at_key (sort_reverse created_at_key docs)"
    by (simp add: created_at_key_id_to_str comp_def)
  have sorted: "sorted_wrt (\<ge>) (map created_at_key ?r)"
    unfolding keys by (rule sort_reverse_sorted)
  have perm: "mset ?r = mset (map id_to_str docs)"
    by (simp add: sort_reverse_mset)
  have last: "created_at_key (?r ! j) = datetime_min"
    if "i < j" "j < length ?r" "doc_created_at (?r ! i) = None" for i j
  proof -
    have "j < length (map created_at_key ?r)" using that(2) by simp
    with sorted that(1) have "map created_at_key ?r ! j \<le> map created_at_key ?r ! i"
      by (rule sorted_wrt_nth_less)
    moreover have "created_at_key (?r ! i) = datetime_min"
      using that(3) by (simp add: created_at_key_def)
    ultimately show ?thesis using that(1,2) by (simp add: datetime_min_def)
  qed
  from res perm sorted last show ?thesis by blast
qed

text \<open>
  The route, when every document fits the response model: the body holds the entries of
  the handler's sorted documents, one by one and in that order.
\<close>

lemma GET_guestbook_dated:
  assumes "get_documents db (py ''guestbook'') [] limit (store w) = (Inr docs, s)"
    and "\<forall>d \<in> set docs. GuestbookEntry_validate d \<noteq> None"
  shows "\<exists>entries.
           list_all2 (\<lambda>d e. GuestbookEntry_validate d = Some e)
             (map id_to_str (sort_reverse created_at_key docs)) entries \<and>
           fst (GET_guestbook db (Some limit) w) = Inr (map jsonable entries) \<and>
           sorted_wrt (\<ge>) (map entry_created_at entries)"
proof -
  let ?r = "map id_to_str (sort_reverse created_at_key docs)"
  have keys: "map created_at_key ?r = map created_at_key (sort_reverse created_at_key docs)"
    by (simp add: created_at_key_id_to_str comp_def)
  have sorted: "sorted_wrt (\<ge>) (map created_at_key ?r)"
    unfolding keys by (rule sort_reverse_sorted)
  have get: "fst (GET_guestbook db (Some limit) w) =
           (case those (map GuestbookEntry_validate ?r) of
              None \<Rightarrow> Inl ResponseValidationError
            | Some entries \<Rightarrow> Inr (map jsonable entries))"
    using assms(1) by (rule GET_guestbook_result)
  have "those (map GuestbookEntry_validate ?r) \<noteq> None"
    using assms(2)
    by (simp add: those_map_None_iff set_sort_reverse GuestbookEntry_validate_id_to_str)
  then obtain entries where e: "those (map GuestbookEntry_validate ?r) = Some entries" by auto
  from validated_created_at [OF e] sorted
  have s: "sorted_wrt (\<ge>) (map entry_created_at entries)" by simp
  from those_map_Some [OF e] get e s show ?thesis by auto
qed

text \<open>The route, when a document has no \<^verbatim>\<open>created_at\<close>.\<close>

lemma GET_guestbook_undated:
  assumes "get_documents db (py ''guestbook'') [] limit (store w) = (Inr docs, s)"
    and "\<exists>d \<in> set docs. doc_created_at d = None"
  shows "fst (GET_guestbook db (Some limit) w) = Inl ResponseValidationError"
proof -
  let ?r = "map id_to_str (sort_reverse created_at_key docs)"
  from assms(2) obtain d where "d \<in> set docs" "GuestbookEntry_validate d = None"
    by (auto dest: GuestbookEntry_validate_None)
  then have "those (map GuestbookEntry_validate ?r) = None"
    by (auto simp: those_map_None_iff set_sort_reverse GuestbookEntry_validate_id_to_str)
  with GET_guestbook_result [OF assms(1)] show ?thesis by simp
qed

section \<open>Claims\<close>

text \<open>
  Claim C1. The sanitization of the create operation,
  \<^verbatim>\<open>URL_REGEX.sub("[link removed]", message)\<close>, replaces every maximal substring that
  matches the pattern, from left to right and without overlap. Stated against the
  specification's description of the pattern: if \<open>u\<close> has the shape of a URL, no
  substring starting before it in the message has that shape (it is the leftmost one) and
  it cannot be extended (the message ends after it or goes on with whitespace), then the
  result is the text before \<open>u\<close> unchanged, the placeholder, and the sanitization of what
  follows \<open>u\<close>; a message in which no substring has the shape of a URL is returned
  unchanged. These two facts determine the result for every message. The create handler
  applies the substitution to the trimmed message, and the message of the
  specification's example comes back from \<^verbatim>\<open>POST /guestbook\<close> as exactly the text the
  specification gives.
\<close>

theorem sanitize_replaces_every_url:
  "((\<forall>k<length pre. \<not> url_starts_at (pre @ u @ post) k) \<and> is_url u \<and>
      (post = [] \<or> isspace (hd post))
     \<longrightarrow> URL_REGEX_sub link_removed (pre @ u @ post) =
           pre @ link_removed @ URL_REGEX_sub link_removed post) \<and>
   ((\<forall>k. \<not> url_starts_at s k) \<longrightarrow> URL_REGEX_sub link_removed s = s) \<and>
   (add_guestbook db payload w = (Inr d, w') \<longrightarrow>
      doc_message d = Some (URL_REGEX_sub link_removed (strip (message payload)))) \<and>
   URL_REGEX_sub link_removed (py ''check this out https://evil.example/x and http://y.com'') =
     py ''check this out [link removed] and [link removed]'' \<and>
   fst (POST_guestbook db_ok
          \<lparr>name = py ''Ann'',
           message = py ''check this out https://evil.example/x and http://y.com''\<rparr> world0) =
     Inr [(py ''name'', JString (py ''Ann'')),
          (py ''message'', JString (py ''check this out [link removed] and [link removed]'')),
          (py ''created_at'', JDatetime 1001)]"
proof (intro conjI impI)
  assume "(\<forall>k<length pre. \<not> url_starts_at (pre @ u @ post) k) \<and> is_url u \<and>
      (post = [] \<or> isspace (hd post))"
  then show "URL_REGEX_sub link_removed (pre @ u @ post) =
      pre @ link_removed @ URL_REGEX_sub link_removed post"
    by (intro URL_REGEX_sub_leftmost) auto
next
  assume "\<forall>k. \<not> url_starts_at s k"
  then show "URL_REGEX_sub link_removed s = s"
    by (intro URL_REGEX_sub_no_url) auto
next
  assume "add_guestbook db payload w = (Inr d, w')"
  then show "doc_message d = Some (URL_REGEX_sub link_removed (strip (message payload)))"
    by (rule add_guestbook_Inr_D)
next
  show ex: "URL_REGEX_sub link_removed
      (py ''check this out https://evil.example/x and http://y.com'') =
     py ''check this out [link removed] and [link removed]''"
    by (simp add: URL_REGEX_sub.simps url_eval link_removed_def)
  let ?p = "\<lparr>name = py ''Ann'',
             message = py ''check this out https://evil.example/x and http://y.com''\<rparr>"
  have n: "strip (name ?p) = py ''Ann''"
    and m: "strip (message ?p) = py ''check this out https://evil.example/x and http://y.com''"
    by (simp_all add: strip_def py_def isspace_def)
  have ne: "py ''Ann'' \<noteq> []"
    "py ''check this out https://evil.example/x and http://y.com'' \<noteq> []"
    by (simp_all add: py_def)
  have v: "GuestbookCreate_validate ?p"
    by (simp add: GuestbookCreate_validate_def py_def)
  have c: "create_document db_ok (py ''guestbook'')
       [(py ''name'', strip (name ?p)),
        (py ''message'', URL_REGEX_sub link_removed (strip (message ?p)))] (store world0)
     = (Inr (IdStr (py ''65a3'')), ())"
    by (simp add: db_ok_def)
  have "fst (POST_guestbook db_ok ?p world0) =
      Inr [(py ''name'', JString (strip (name ?p))),
           (py ''message'', JString (URL_REGEX_sub link_removed (strip (message ?p)))),
           (py ''created_at'', JDatetime (clock world0 (Suc (clock_reads world0))))]"
    by (subst POST_guestbook_success [OF v _ _ c]) (simp_all only: n m ne fst_conv not_False_eq_True)
  then show "fst (POST_guestbook db_ok ?p world0) =
     Inr [(py ''name'', JString (py ''Ann'')),
          (py ''message'', JString (py ''check this out [link removed] and [link removed]'')),
          (py ''created_at'', JDatetime 1001)]"
    by (simp only: n m ex) (simp add: world0_def)
qed

theorem sanitize_replaces_every_url_witness:
  "\<not> url_starts_at (py ''a HTTPS://b.c d'') 0 \<and> \<not> url_starts_at (py ''a HTTPS://b.c d'') 1 \<and>
   is_url (py ''HTTPS://b.c'') \<and> isspace (hd (py '' d'')) \<and>
   URL_REGEX_sub link_removed (py ''a HTTPS://b.c d'') = py ''a [link removed] d'' \<and>
   (\<forall>k. \<not> url_starts_at (py ''hi'') k) \<and>
   URL_REGEX_sub link_removed (py ''hi'') = py ''hi'' \<and>
   fst (add_guestbook db_ok payload0 world0) =
     Inr \<lparr>doc_id = Some (IdStr (py ''65a3'')), doc_name = Some (py ''Ann''),
          doc_message = Some (py ''see [link removed] now''), doc_created_at = Some 1001\<rparr> \<and>
   URL_REGEX_sub link_removed (strip (message payload0)) = py ''see [link removed] now''"
proof -
  let ?s = "py ''a HTTPS://b.c d''"
  let ?d = "\<lparr>doc_id = Some (IdStr (py ''65a3'')), doc_name = Some (py ''Ann''),
          doc_message = Some (py ''see [link removed] now''), doc_created_at = Some 1001\<rparr>"
  let ?w = "world0\<lparr>calls :=
          [Create_document (py ''guestbook'')
             [(py ''name'', py ''Ann''), (py ''message'', py ''see [link removed] now'')]],
        clock_reads := 2\<rparr>"
  have a0: "\<not> url_starts_at ?s 0" and a1: "\<not> url_starts_at ?s 1"
    by (simp_all add: url_starts_at_match url_eval)
  have b: "is_url (py ''HTTPS://b.c'')"
    by (simp add: is_url_def url_with_def py_simps literal_ignorecase_def isspace_def)
  have c: "isspace (hd (py '' d''))"
    by (simp add: py_simps isspace_def)
  have d: "\<forall>k. \<not> url_starts_at (py ''hi'') k"
    by (simp add: py_simps url_free_Cons url_free_Nil URL_REGEX_match_def literal_ignorecase_def)
  have e: "py ''a '' @ py ''HTTPS://b.c'' @ py '' d'' = ?s"
    by (simp add: py_def)
  have f: "\<forall>k<length (py ''a ''). \<not> url_starts_at ?s k"
    using a0 a1 by (auto simp: py_def less_Suc_eq numeral_2_eq_2)
  have g: "URL_REGEX_sub link_removed (py '' d'') = py '' d''"
    by (simp add: URL_REGEX_sub.simps url_eval)
  have h: "add_guestbook db_ok payload0 world0 = (Inr ?d, ?w)"
    by (rule add_guestbook_payload0)
  from sanitize_replaces_every_url [of "py ''a ''" "py ''HTTPS://b.c''" "py '' d''" "py ''hi''"
      db_ok payload0 world0 ?d ?w]
  have "URL_REGEX_sub link_removed ?s = py ''a '' @ link_removed @ py '' d''"
    and "URL_REGEX_sub link_removed (py ''hi'') = py ''hi''"
    and "doc_message ?d = Some (URL_REGEX_sub link_removed (strip (message payload0)))"
    using b c d f h unfolding e g by blast+
  moreover have "py ''a '' @ link_removed @ py '' d'' = py ''a [link removed] d''"
    by (simp add: py_def link_removed_def)
  ultimately show ?thesis using a0 a1 b c d h by simp
qed

text \<open>
  Claim C2 (amended). A request whose name or message is empty after trimming is refused
  without any call into the storage collaborator: the world, and with it the log of
  calls, is left as it was. The handler answers with status 400; it runs only for a body
  within the bounds of the request model (name at most 80, message at most 500
  characters), and a body over the bounds is refused before it with status 422.
  By \<open>strip_empty_iff\<close> a text is empty after trimming exactly when it is empty or
  consists of whitespace only.
\<close>

theorem blank_field_rejected:
  assumes "strip (name payload) = [] \<or> strip (message payload) = []"
  shows "add_guestbook db payload w =
           (Inl (HTTPException 400 (py ''Name and message are required'')), w) \<and>
         POST_guestbook db payload w =
           (Inl (if GuestbookCreate_validate payload
                 then HTTPException 400 (py ''Name and message are required'')
                 else RequestValidationError), w) \<and>
         calls (snd (POST_guestbook db payload w)) = calls w"
proof -
  from assms have h: "add_guestbook db payload w =
      (Inl (HTTPException 400 (py ''Name and message are required'')), w)"
    by (auto simp: add_guestbook_def Let_def)
  then show ?thesis by (simp add: POST_guestbook_def)
qed

theorem blank_field_rejected_witness:
  "strip (name \<lparr>name = py ''   '', message = py ''hello''\<rparr>) = [] \<and>
   GuestbookCreate_validate \<lparr>name = py ''   '', message = py ''hello''\<rparr> \<and>
   POST_guestbook db_ok \<lparr>name = py ''   '', message = py ''hello''\<rparr> world0 =
     (Inl (HTTPException 400 (py ''Name and message are required'')), world0) \<and>
   calls (snd (POST_guestbook db_ok \<lparr>name = py ''   '', message = py ''hello''\<rparr> world0)) =
     calls world0"
proof -
  have a: "strip (name \<lparr>name = py ''   '', message = py ''hello''\<rparr>) = []"
    by (simp add: strip_def py_def isspace_def)
  have b: "GuestbookCreate_validate \<lparr>name = py ''   '', message = py ''hello''\<rparr>"
    by (simp add: GuestbookCreate_validate_def py_def)
  from blank_field_rejected [of "\<lparr>name = py ''   '', message = py ''hello''\<rparr>" db_ok world0] a b
  show ?thesis by simp
qed

text \<open>
  The claim as written promises status 400 for every such request. A name of 81 spaces
  is empty after trimming, and the request is refused with status 422.
\<close>

theorem overlong_blank_name_is_422:
  "strip (name \<lparr>name = replicate 81 32, message = py ''hello''\<rparr>) = [] \<and>
   fst (POST_guestbook db_ok \<lparr>name = replicate 81 32, message = py ''hello''\<rparr> world0) =
     Inl RequestValidationError \<and>
   status_code RequestValidationError \<noteq> 400"
  by (simp add: strip_def isspace_def POST_guestbook_def GuestbookCreate_validate_def)

text \<open>
  Claim C3. For a valid request the handler passes the trimmed name and the sanitized
  message to \<^verbatim>\<open>create_document\<close> on the collection \<^verbatim>\<open>guestbook\<close> and returns a
  dictionary that carries them together with the identifier under \<^verbatim>\<open>_id\<close>
  (\<open>POST_guestbook_success\<close> states this for every valid request). The response model
  has no field for the identifier, so the body of the response holds the name, the
  message and the timestamp only: evaluated on a request with name
  \<^verbatim>\<open>"  Ann "\<close> and message \<^verbatim>\<open>" see http://x.io now "\<close>, the handler's value contains
  the identifier and the body does not.
\<close>

theorem created_entry_response_lacks_id:
  "fst (add_guestbook db_ok payload0 world0) =
     Inr \<lparr>doc_id = Some (IdStr (py ''65a3'')), doc_name = Some (py ''Ann''),
          doc_message = Some (py ''see [link removed] now''), doc_created_at = Some 1001\<rparr> \<and>
   calls (snd (add_guestbook db_ok payload0 world0)) =
     [Create_document (py ''guestbook'')
        [(py ''name'', py ''Ann''), (py ''message'', py ''see [link removed] now'')]] \<and>
   fst (POST_guestbook db_ok payload0 world0) =
     Inr [(py ''name'', JString (py ''Ann'')),
          (py ''message'', JString (py ''see [link removed] now'')),
          (py ''created_at'', JDatetime 1001)] \<and>
   map_of [(py ''name'', JString (py ''Ann'')),
          (py ''message'', JString (py ''see [link removed] now'')),
          (py ''created_at'', JDatetime 1001)] (py ''_id'') = None"
proof -
  have v: "GuestbookCreate_validate payload0"
    by (simp add: GuestbookCreate_validate_def payload0_def py_def)
  show ?thesis
    by (simp add: POST_guestbook_def v add_guestbook_payload0 GuestbookEntry_validate_def
        jsonable_def id_is_no_field del: map_of.simps)
qed

text \<open>
  Claim C4. The list handler returns the documents of the collaborator in non-increasing
  order of \<^verbatim>\<open>created_at\<close>, a document without \<^verbatim>\<open>created_at\<close> counting as
  \<^verbatim>\<open>datetime.min\<close> and so sorting last (\<open>list_guestbook_sorted\<close>), and
  \<^verbatim>\<open>GET /guestbook\<close> returns the entries of the sorted documents when all of them are
  dated (\<open>GET_guestbook_dated\<close>). The response model requires \<^verbatim>\<open>created_at\<close>,
  however, so the undated document the handler has just sorted last is never returned:
  evaluated on a store that holds documents dated 5 and 9 and an undated one, the
  handler's list is the document dated 9, the one dated 5 and the undated one, and the
  request fails with status 500.
\<close>

theorem undated_document_sorts_last_then_fails:
  "fst (call_get_documents db_mixed (py ''guestbook'') [] 50 world0) = Inr mixed_docs \<and>
   fst (list_guestbook db_mixed 50 world0) =
     Inr [\<lparr>doc_id = Some (IdStr (py ''65b2'')), doc_name = Some (py ''Bob''),
           doc_message = Some (py ''second''), doc_created_at = Some 9\<rparr>,
          \<lparr>doc_id = Some (IdStr (py ''65b1'')), doc_name = Some (py ''Ann''),
           doc_message = Some (py ''first''), doc_created_at = Some 5\<rparr>,
          \<lparr>doc_id = None, doc_name = Some (py ''Old''),
           doc_message = Some (py ''undated''), doc_created_at = None\<rparr>] \<and>
   fst (GET_guestbook db_mixed None world0) = Inl ResponseValidationError \<and>
   status_code ResponseValidationError = 500"
  by (simp add: GET_guestbook_def list_guestbook_def call_get_documents_def db_mixed_def
      mixed_docs_def sort_reverse_def created_at_key_def datetime_min_def id_to_str_def
      GuestbookEntry_validate_def)

text \<open>
  Claim C5. \<^verbatim>\<open>GET /test\<close> never raises: whatever the import of the database module
  and the enumeration of the collections do, a response is returned. Its
  \<^verbatim>\<open>connection_status\<close> is \<^verbatim>\<open>"Connected"\<close> exactly when the import gave a handle
  that is not \<^verbatim>\<open>None\<close>, its \<^verbatim>\<open>collections\<close> holds at most 10 names, and every
  failure shows in the \<^verbatim>\<open>database\<close> text.
\<close>

theorem test_database_never_raises:
  "\<exists>r. test_database imported env = Inr r \<and>
       (connection_status r = py ''Connected'' \<longleftrightarrow> (\<exists>db. imported = Inr (Some db))) \<and>
       length (collections r) \<le> 10 \<and>
       (case imported of
          Inl (ImportError m) \<Rightarrow>
            database r = cross_mark @ py '' Database module not found (run enable-database first)''
        | Inl (Exception m) \<Rightarrow> database r = cross_mark @ py '' Error: '' @ take 50 m
        | Inr None \<Rightarrow> database r = warning_sign @ py ''  Available but not initialized''
        | Inr (Some db) \<Rightarrow>
            (case list_collection_names db of
               Inl e \<Rightarrow> database r =
                  warning_sign @ py ''  Connected but Error: '' @ take 50 (str_exception e)
             | Inr cs \<Rightarrow> database r = check_mark @ py '' Connected & Working'' \<and>
                  collections r = take 10 cs))"
  by (simp add: test_database_def Let_def probe_db_def probe_collections_def
      initial_response_def Not_Connected_neq
      split: sum.splits option.splits exception.splits)

theorem test_database_never_raises_witness:
  "\<exists>r. test_database (Inr (Some many_collections)) Map.empty = Inr r \<and>
       connection_status r = py ''Connected'' \<and>
       length (collections r) = 10 \<and>
       database r = check_mark @ py '' Connected & Working''"
proof -
  from test_database_never_raises [of "Inr (Some many_collections)" Map.empty]
  obtain r where "test_database (Inr (Some many_collections)) Map.empty = Inr r"
    and "connection_status r = py ''Connected''"
    and "database r = check_mark @ py '' Connected & Working''"
    and "collections r = take 10 (map (\<lambda>n. py ''c'' @ [48 + n]) [0..<12])"
    by (auto simp: many_collections_def)
  then show ?thesis by auto
qed

text \<open>
  Claim C6. When \<^verbatim>\<open>get_documents\<close> raises, \<^verbatim>\<open>GET /guestbook\<close> fails with status 500
  and the text of the exception as detail; when \<^verbatim>\<open>create_document\<close>, called for a
  valid request, raises, \<^verbatim>\<open>POST /guestbook\<close> fails in the same way.
\<close>

theorem storage_failure_is_500:
  "(get_documents db (py ''guestbook'') [] (case limit_param of None \<Rightarrow> 50 | Some l \<Rightarrow> l) (store w)
      = (Inl e, s)
    \<longrightarrow> fst (GET_guestbook db limit_param w) = Inl (HTTPException 500 (str_exception e))) \<and>
   (GuestbookCreate_validate payload \<and> strip (name payload) \<noteq> [] \<and> strip (message payload) \<noteq> [] \<and>
    create_document db (py ''guestbook'')
      [(py ''name'', strip (name payload)),
       (py ''message'', URL_REGEX_sub link_removed (strip (message payload)))] (store w)
      = (Inl e', s')
    \<longrightarrow> fst (POST_guestbook db payload w) = Inl (HTTPException 500 (str_exception e')))"
  by (simp add: GET_guestbook_def list_guestbook_def call_get_documents_def
      POST_guestbook_def add_guestbook_def call_create_document_def Let_def)

theorem storage_failure_is_500_witness:
  "get_documents db_down (py ''guestbook'') [] 50 (store world0) =
     (Inl (Exception (py ''connection refused'')), ()) \<and>
   fst (GET_guestbook db_down None world0) = Inl (HTTPException 500 (py ''connection refused'')) \<and>
   GuestbookCreate_validate \<lparr>name = py ''Ann'', message = py ''hi''\<rparr> \<and>
   strip (name \<lparr>name = py ''Ann'', message = py ''hi''\<rparr>) \<noteq> [] \<and>
   strip (message \<lparr>name = py ''Ann'', message = py ''hi''\<rparr>) \<noteq> [] \<and>
   fst (POST_guestbook db_down \<lparr>name = py ''Ann'', message = py ''hi''\<rparr> world0) =
     Inl (HTTPException 500 (py ''connection refused''))"
proof -
  let ?p = "\<lparr>name = py ''Ann'', message = py ''hi''\<rparr>"
  have a: "get_documents db_down (py ''guestbook'') [] 50 (store world0) =
     (Inl (Exception (py ''connection refused'')), ())"
    by (simp add: db_down_def)
  have b: "GuestbookCreate_validate ?p" by (simp add: GuestbookCreate_validate_def py_def)
  have c: "strip (name ?p) \<noteq> []" "strip (message ?p) \<noteq> []"
    by (simp_all add: strip_def py_def isspace_def)
  have d: "create_document db_down (py ''guestbook'')
      [(py ''name'', strip (name ?p)),
       (py ''message'', URL_REGEX_sub link_removed (strip (message ?p)))] (store world0)
      = (Inl (Exception (py ''connection refused'')), ())"
    by (simp add: db_down_def)
  from storage_failure_is_500 [of db_down None world0 "Exception (py ''connection refused'')" "()"
      ?p "Exception (py ''connection refused'')" "()"] a b c d
  show ?thesis by simp
qed

text \<open>
  Claim C7. The list handler replaces the identifier of each document by its text
  (\<open>id_to_str\<close>), but the response model has no field for it: evaluated on a store
  with two documents, the handler's list carries the identifiers as text and the entries
  of the response body have no member \<^verbatim>\<open>_id\<close>.
\<close>

theorem listed_entries_lack_id:
  "fst (list_guestbook db_ok 50 world0) =
     Inr [\<lparr>doc_id = Some (IdStr (py ''65a2'')), doc_name = Some (py ''Bob''),
           doc_message = Some (py ''second''), doc_created_at = Some 9\<rparr>,
          \<lparr>doc_id = Some (IdStr (py ''65a1'')), doc_name = Some (py ''Ann''),
           doc_message = Some (py ''first''), doc_created_at = Some 5\<rparr>] \<and>
   fst (GET_guestbook db_ok None world0) =
     Inr [[(py ''name'', JString (py ''Bob'')), (py ''message'', JString (py ''second'')),
           (py ''created_at'', JDatetime 9)],
          [(py ''name'', JString (py ''Ann'')), (py ''message'', JString (py ''first'')),
           (py ''created_at'', JDatetime 5)]] \<and>
   map_of [(py ''name'', JString (py ''Bob'')), (py ''message'', JString (py ''second'')),
           (py ''created_at'', JDatetime 9)] (py ''_id'') = None \<and>
   map_of [(py ''name'', JString (py ''Ann'')), (py ''message'', JString (py ''first'')),
           (py ''created_at'', JDatetime 5)] (py ''_id'') = None"
proof -
  have l: "list_guestbook db_ok 50 world0 =
     (Inr [\<lparr>doc_id = Some (IdStr (py ''65a2'')), doc_name = Some (py ''Bob''),
           doc_message = Some (py ''second''), doc_created_at = Some 9\<rparr>,
          \<lparr>doc_id = Some (IdStr (py ''65a1'')), doc_name = Some (py ''Ann''),
           doc_message = Some (py ''first''), doc_created_at = Some 5\<rparr>],
      world0\<lparr>calls := [Get_documents (py ''guestbook'') [] 50]\<rparr>)"
    by (simp add: list_guestbook_def call_get_documents_def db_ok_def stored_docs_def
        sort_reverse_def created_at_key_def id_to_str_def world0_def)
  show ?thesis
    by (simp add: GET_guestbook_def l GuestbookEntry_validate_def jsonable_def id_is_no_field
        del: map_of.simps)
qed

text \<open>
  Claim C8. The result of the sanitization contains no substring that matches the
  pattern, for every message; this is the message the create handler passes to
  \<^verbatim>\<open>create_document\<close> and returns.
\<close>

theorem stored_message_has_no_url:
  "(\<forall>k. \<not> url_starts_at (URL_REGEX_sub link_removed m) k) \<and>
   (add_guestbook db payload w = (Inr d, w') \<longrightarrow>
      (\<exists>msg. doc_message d = Some msg \<and>
         calls w' = calls w @
           [Create_document (py ''guestbook'')
              [(py ''name'', strip (name payload)), (py ''message'', msg)]] \<and>
         (\<forall>k. \<not> url_starts_at msg k)))"
proof (intro conjI impI allI)
  fix k show "\<not> url_starts_at (URL_REGEX_sub link_removed m) k"
    by (rule URL_REGEX_sub_url_free)
next
  assume a: "add_guestbook db payload w = (Inr d, w')"
  let ?msg = "URL_REGEX_sub link_removed (strip (message payload))"
  have "doc_message d = Some ?msg"
    and "calls w' = calls w @
           [Create_document (py ''guestbook'')
              [(py ''name'', strip (name payload)), (py ''message'', ?msg)]]"
    using a by (rule add_guestbook_Inr_D)+
  moreover have "\<forall>k. \<not> url_starts_at ?msg k" by (simp add: URL_REGEX_sub_url_free)
  ultimately show "\<exists>msg. doc_message d = Some msg \<and>
         calls w' = calls w @
           [Create_document (py ''guestbook'')
              [(py ''name'', strip (name payload)), (py ''message'', msg)]] \<and>
         (\<forall>k. \<not> url_starts_at msg k)"
    by blast
qed

theorem stored_message_has_no_url_witness:
  "add_guestbook db_ok payload0 world0 =
     (Inr \<lparr>doc_id = Some (IdStr (py ''65a3'')), doc_name = Some (py ''Ann''),
           doc_message = Some (py ''see [link removed] now''), doc_created_at = Some 1001\<rparr>,
      world0\<lparr>calls :=
          [Create_document (py ''guestbook'')
             [(py ''name'', py ''Ann''), (py ''message'', py ''see [link removed] now'')]],
        clock_reads := 2\<rparr>) \<and>
   (\<forall>k. \<not> url_starts_at (py ''see [link removed] now'') k)"
proof -
  from stored_message_has_no_url [of "py ''see http://x.io now''" db_ok payload0 world0]
  have "\<forall>k. \<not> url_starts_at (URL_REGEX_sub link_removed (py ''see http://x.io now'')) k"
    by blast
  then show ?thesis by (simp add: add_guestbook_payload0 sanitize_payload0)
qed

text \<open>
  Claim C9. The sanitization is idempotent: sanitizing a sanitized message changes
  nothing.
\<close>

theorem sanitize_idempotent:
  "URL_REGEX_sub link_removed (URL_REGEX_sub link_removed s) = URL_REGEX_sub link_removed s"
  by (rule URL_REGEX_sub_no_url) (rule URL_REGEX_sub_url_free)

theorem sanitize_idempotent_witness:
  "URL_REGEX_sub link_removed (URL_REGEX_sub link_removed (py ''x http://a.b y'')) =
     py ''x [link removed] y''"
proof -
  have "URL_REGEX_sub link_removed (py ''x http://a.b y'') = py ''x [link removed] y''"
    by (simp add: URL_REGEX_sub.simps url_eval link_removed_def)
  with sanitize_idempotent [of "py ''x http://a.b y''"] show ?thesis by simp
qed

text \<open>
  Claim C10 (amended). In the response of \<^verbatim>\<open>GET /test\<close> the fields
  \<^verbatim>\<open>database_url\<close> and \<^verbatim>\<open>database_name\<close> depend only on whether
  \<^verbatim>\<open>DATABASE_URL\<close> and \<^verbatim>\<open>DATABASE_NAME\<close> are set to a non-empty text, and not on
  the outcome of the import or the state of the handle: two runs that agree on that
  agree on both fields, whatever the database does.
\<close>

theorem env_fields_ignore_database_state:
  "getenv_truthy env1 (py ''DATABASE_URL'') = getenv_truthy env2 (py ''DATABASE_URL'') \<and>
   getenv_truthy env1 (py ''DATABASE_NAME'') = getenv_truthy env2 (py ''DATABASE_NAME'')
   \<longrightarrow> (\<exists>r1 r2. test_database imported1 env1 = Inr r1 \<and> test_database imported2 env2 = Inr r2 \<and>
          database_url r1 = database_url r2 \<and> database_name r1 = database_name r2 \<and>
          database_url r1 =
            Some (if getenv_truthy env1 (py ''DATABASE_URL'')
                  then check_mark @ py '' Set'' else cross_mark @ py '' Not Set'') \<and>
          database_name r1 =
            Some (if getenv_truthy env1 (py ''DATABASE_NAME'')
                  then check_mark @ py '' Set'' else cross_mark @ py '' Not Set''))"
  by (simp add: test_database_def Let_def)

theorem env_fields_ignore_database_state_witness:
  "getenv_truthy env_set_url (py ''DATABASE_URL'') \<and>
   getenv_truthy env_set_url (py ''DATABASE_NAME'') \<and>
   (\<exists>r1 r2. test_database (Inr (Some db_handle0)) env_set_url = Inr r1 \<and>
      test_database (Inl (ImportError (py ''No module named database''))) env_set_url = Inr r2 \<and>
      database_url r1 = database_url r2 \<and> database_name r1 = database_name r2 \<and>
      database_url r1 = Some (check_mark @ py '' Set'') \<and>
      database_name r1 = Some (check_mark @ py '' Set''))"
proof -
  have a: "getenv_truthy env_set_url (py ''DATABASE_URL'')"
    and b: "getenv_truthy env_set_url (py ''DATABASE_NAME'')"
    by (simp_all add: getenv_truthy_def env_set_url_def py_def)
  from env_fields_ignore_database_state [of env_set_url env_set_url "Inr (Some db_handle0)"
      "Inl (ImportError (py ''No module named database''))"] a b
  show ?thesis by simp
qed

text \<open>
  The claim as written lets the fields depend on whether the variables are set. Two
  environments that set the same variables, one of them \<^verbatim>\<open>DATABASE_URL\<close> to the
  empty text, give different \<^verbatim>\<open>database_url\<close> fields.
\<close>

theorem empty_variable_reads_as_not_set:
  "dom env_empty_url = dom env_set_url \<and>
   map_sum id database_url (test_database (Inr None) env_empty_url) =
     Inr (Some (cross_mark @ py '' Not Set'')) \<and>
   map_sum id database_url (test_database (Inr (Some db_handle0)) env_set_url) =
     Inr (Some (check_mark @ py '' Set'')) \<and>
   cross_mark @ py '' Not Set'' \<noteq> check_mark @ py '' Set''"
proof -
  have a: "\<not> getenv_truthy env_empty_url (py ''DATABASE_URL'')"
    and b: "getenv_truthy env_set_url (py ''DATABASE_URL'')"
    by (simp_all add: getenv_truthy_def env_empty_url_def env_set_url_def py_def)
  have c: "dom env_empty_url = dom env_set_url"
    by (simp add: env_empty_url_def env_set_url_def)
  have d: "cross_mark @ py '' Not Set'' \<noteq> check_mark @ py '' Set''"
    by (simp add: cross_mark_def check_mark_def)
  show ?thesis using a b c d by (simp add: test_database_def Let_def)
qed

end
